theory Spec2Isabelle
  imports Main "HOL-Library.Sublist"
begin

section \<open>Data model\<close>

text \<open>
  The email assistant of the notebook: a triage router in front of a tool-calling agent,
  both wired as a graph over one shared state. The language model is the Decision Port:
  \<open>llm_router.invoke\<close> (classification) and \<open>llm_with_tools.invoke\<close> (next tool calls).
  Everything the model returns is an input of the program, so the port is a pair of
  functions, each of which may fail. The graph library that runs the nodes is part of the
  model where the program depends on it: the update logic of the \<open>messages\<close> key, the
  ids it generates for new messages, and the bound on the steps of a run.
\<close>

text \<open>The \<open>email_input\<close> dictionary, with the four keys that \<open>parse_email\<close> reads.\<close>

record email =
  author :: string
  to :: string
  subject :: string
  email_thread :: string

text \<open>JSON values of a tool call's \<open>args\<close> dictionary.\<close>

datatype arg = S string | I int | B bool | L "string list"

type_synonym args = "(string \<times> arg) list"

text \<open>A tool call \<open>{"name": .., "args": .., "id": ..}\<close>; the key \<open>id\<close> is \<open>call_id\<close> here.\<close>

record tool_call =
  name :: string
  args :: args
  call_id :: string

text \<open>
  Conversation turns. A dictionary with role \<open>system\<close>, \<open>user\<close> or \<open>tool\<close> is the
  message of that role; the model's answer is an \<open>AIMessage\<close> with its content and its
  \<open>tool_calls\<close>; a \<open>ToolMessage\<close> carries its content and its \<open>tool_call_id\<close>.
  A message also has an id, kept beside it: a message in the state always has one, a
  dictionary that a node returns has none yet.
\<close>

datatype message =
    SystemMessage string
  | HumanMessage string
  | AIMessage string "tool_call list"
  | ToolMessage string string

type_synonym entry = "string option \<times> message"

text \<open>\<open>class State(MessagesState)\<close>: the key \<open>classification_decision\<close> is absent at the start.\<close>

record State =
  messages :: "(string \<times> message) list"
  email_input :: email
  classification_decision :: "string option"

text \<open>
  What a node returns: a dictionary holding some of the keys of the state. A key that is
  absent is \<open>None\<close>.
\<close>

record update =
  u_messages :: "entry list option"
  u_email_input :: "email option"
  u_classification_decision :: "string option"

text \<open>
  The update logic of the \<open>messages\<close> key, the library's \<open>add_messages\<close>. A returned
  message without id gets a generated one: \<open>uuid4\<close> is the sequence of the ids that a run
  generates, and a counter says how many it has used. Then the returned messages are merged
  into the conversation one after the other: a message whose id is in the conversation
  takes the place of the message with that id (the last one, should there be several),
  any other message is appended.
\<close>

fun assign_ids :: "(nat \<Rightarrow> string) \<Rightarrow> nat \<Rightarrow> entry list \<Rightarrow> (string \<times> message) list \<times> nat" where
  "assign_ids uuid4 n [] = ([], n)"
| "assign_ids uuid4 n ((None, m) # right) =
     (case assign_ids uuid4 (Suc n) right of (ms, n') \<Rightarrow> ((uuid4 n, m) # ms, n'))"
| "assign_ids uuid4 n ((Some i, m) # right) =
     (case assign_ids uuid4 n right of (ms, n') \<Rightarrow> ((i, m) # ms, n'))"

fun upsert :: "(string \<times> message) list \<Rightarrow> string \<times> message \<Rightarrow> (string \<times> message) list" where
  "upsert [] x = [x]"
| "upsert (y # ys) x =
     (if fst y = fst x \<and> fst x \<notin> fst ` set ys then x # ys else y # upsert ys x)"

definition add_messages :: "(nat \<Rightarrow> string) \<Rightarrow> nat \<Rightarrow> (string \<times> message) list \<Rightarrow> entry list \<Rightarrow> (string \<times> message) list \<times> nat" where
  "add_messages uuid4 n left right =
     (case assign_ids uuid4 n right of (right', n') \<Rightarrow> (foldl upsert left right', n'))"

text \<open>
  A node's update applied to the state: the \<open>messages\<close> key goes through
  \<open>add_messages\<close>, every other key is overwritten. The result is the new state and the
  new count of generated ids.
\<close>

definition apply_update :: "(nat \<Rightarrow> string) \<Rightarrow> nat \<Rightarrow> State \<Rightarrow> update \<Rightarrow> State \<times> nat" where
  "apply_update uuid4 n st u =
     (case (case u_messages u of
              None \<Rightarrow> (messages st, n)
            | Some right \<Rightarrow> add_messages uuid4 n (messages st) right) of
        (ms, n') \<Rightarrow>
          (\<lparr> messages = ms,
             email_input = (case u_email_input u of None \<Rightarrow> email_input st | Some e \<Rightarrow> e),
             classification_decision =
               (case u_classification_decision u of
                  None \<Rightarrow> classification_decision st
                | Some d \<Rightarrow> Some d) \<rparr>,
           n'))"

datatype error =
    ValueError string
  | KeyError string
  | IndexError
  | AttributeError
  | ValidationError string
  | PortError string
  | GraphRecursionError

text \<open>\<open>class RouterSchema(BaseModel)\<close>, the structured answer of the router.\<close>

record RouterSchema =
  reasoning :: string
  classification :: string

text \<open>
  The Decision Port: \<open>classify\<close> is \<open>llm_router.invoke\<close>, on a list of dictionaries;
  \<open>act\<close> is \<open>llm_with_tools.invoke\<close>, on the system dictionary followed by the messages
  of the state, which answers with an \<open>AIMessage\<close>: its id, its content and its tool
  calls.
\<close>

record port =
  classify :: "message list \<Rightarrow> error + RouterSchema"
  act :: "entry list \<Rightarrow> error + string \<times> string \<times> tool_call list"

text \<open>
  The prompt templates and helpers imported from \<open>email_assistant.prompts\<close>,
  \<open>email_assistant.utils\<close> and \<open>email_assistant.tools.default.prompt_templates\<close> are
  parameters: a template with named fields is a function of the values of its fields.
\<close>

record prompts =
  default_background :: string
  default_triage_instructions :: string
  triage_user_prompt :: "string \<Rightarrow> string \<Rightarrow> string \<Rightarrow> string \<Rightarrow> string"
  format_email_markdown :: "string \<Rightarrow> string \<Rightarrow> string \<Rightarrow> string \<Rightarrow> string"
  agent_system_prompt :: "string \<Rightarrow> string \<Rightarrow> string \<Rightarrow> string \<Rightarrow> string"
  AGENT_TOOLS_PROMPT :: string
  default_response_preferences :: string
  default_cal_preferences :: string

text \<open>
  \<open>triage_system_prompt.format(background=.., triage_instructions=..)\<close>, with the
  template the notebook displays.
\<close>

definition triage_system_prompt :: "string \<Rightarrow> string \<Rightarrow> string" where
  "triage_system_prompt background triage_instructions =
     ''\<newline>\<newline>< Role >\<newline>Your role is to triage incoming emails based upon instructs and background information below.\<newline></ Role >\<newline>\<newline>< Background >\<newline>''
     @ background
     @ ''. \<newline></ Background >\<newline>\<newline>< Instructions >\<newline>Categorize each email into one of three categories:\<newline>1. IGNORE - Emails that are not worth responding to or tracking\<newline>2. NOTIFY - Important information that worth notification but doesn't require a response\<newline>3. RESPOND - Emails that need a direct response\<newline>Classify the below email into one of these categories.\<newline></ Instructions >\<newline>\<newline>< Rules >\<newline>''
     @ triage_instructions
     @ ''\<newline></ Rules >\<newline>''"

text \<open>
  Modelled from the spec: \<open>parse_email\<close> of \<open>email_assistant.utils\<close>, which the notebook
  imports; it yields the author, recipient, subject and thread fields of the message.
\<close>

definition parse_email :: "email \<Rightarrow> string \<times> string \<times> string \<times> string" where
  "parse_email e = (author e, to e, subject e, email_thread e)"

section \<open>Tools\<close>

text \<open>
  A tool is its \<open>invoke\<close>: from the \<open>args\<close> dictionary to the observation, or to an
  error. Before the body of a tool runs, the library validates the dictionary against the
  schema that it derives from the tool's signature, and converts the values to the types
  of the fields where it can. That validation is a parameter, one function for each tool:
  it yields the values of the fields, or nothing when it refuses the dictionary. The
  datetime of \<open>schedule_meeting\<close> is of a type \<open>'d\<close> left open, and \<open>strftime\<close> is its
  rendering by \<open>strftime("%A, %B %d, %Y")\<close>.
\<close>

record 'd validation =
  validate_write_email :: "args \<Rightarrow> (string \<times> string \<times> string) option"
  validate_schedule_meeting :: "args \<Rightarrow> (string list \<times> string \<times> int \<times> 'd \<times> int) option"
  validate_check_calendar_availability :: "args \<Rightarrow> string option"
  validate_Done :: "args \<Rightarrow> bool option"
  strftime :: "'d \<Rightarrow> string"

type_synonym tool = "args \<Rightarrow> error + string"

definition write_email :: "'d validation \<Rightarrow> tool" where
  "write_email v a =
     (case validate_write_email v a of
        None \<Rightarrow> Inl (ValidationError ''write_email'')
      | Some (to', subject', content) \<Rightarrow>
          Inr (''Email sent to '' @ to' @ '' with subject '' @ [CHR 0x27] @ subject'
               @ [CHR 0x27] @ '' and content: '' @ content))"

definition check_calendar_availability :: "'d validation \<Rightarrow> tool" where
  "check_calendar_availability v a =
     (case validate_check_calendar_availability v a of
        None \<Rightarrow> Inl (ValidationError ''check_calendar_availability'')
      | Some day \<Rightarrow> Inr (''Available times on '' @ day @ '': 9:00 AM, 2:00 PM, 4:00 PM''))"

text \<open>Decimal text of an integer, Python's \<open>str\<close> on \<open>int\<close>.\<close>

fun digits :: "nat \<Rightarrow> string" where
  "digits n = (if n < 10 then [char_of (48 + n)] else digits (n div 10) @ [char_of (48 + n mod 10)])"

declare digits.simps [simp del]

definition str_int :: "int \<Rightarrow> string" where
  "str_int i = (if i < 0 then ''-'' @ digits (nat (- i)) else digits (nat i))"

definition schedule_meeting :: "'d validation \<Rightarrow> tool" where
  "schedule_meeting v a =
     (case validate_schedule_meeting v a of
        None \<Rightarrow> Inl (ValidationError ''schedule_meeting'')
      | Some (attendees, subject', duration_minutes, preferred_day, start_time) \<Rightarrow>
          (let date_str = strftime v preferred_day in
           Inr (''Meeting '' @ [CHR 0x27] @ subject' @ [CHR 0x27] @ '' scheduled on ''
                @ date_str @ '' at '' @ str_int start_time @ '' for ''
                @ str_int duration_minutes @ '' minutes with ''
                @ str_int (int (length attendees)) @ '' attendees'')))"

text \<open>
  \<open>Done\<close> is a tool like the others in \<open>tools\<close>: invoked, it builds the \<open>Done\<close> object
  from its \<open>done\<close> flag, whose text is the observation.
\<close>

definition Done :: "'d validation \<Rightarrow> tool" where
  "Done v a =
     (case validate_Done v a of
        None \<Rightarrow> Inl (ValidationError ''Done'')
      | Some done \<Rightarrow> Inr (''done='' @ (if done then ''True'' else ''False'')))"

text \<open>\<open>tools_by_name = {tool.name: tool for tool in tools}\<close>\<close>

definition tools_by_name :: "'d validation \<Rightarrow> string \<rightharpoonup> tool" where
  "tools_by_name v =
     map_of [(''write_email'', write_email v),
             (''schedule_meeting'', schedule_meeting v),
             (''check_calendar_availability'', check_calendar_availability v),
             (''Done'', Done v)]"

section \<open>Nodes\<close>

text \<open>
  What a run does to the outside is recorded in a log: the nodes it enters, the requests
  it sends to the Decision Port and the tools it invokes, in order.
\<close>

datatype node = TriageRouter | LlmCall | ToolHandler

datatype event =
    Visit node
  | Classify "message list"
  | Act "entry list"
  | Invoke string args

text \<open>The target of a \<open>Command\<close> of the router, and the answer of \<open>should_continue\<close>.\<close>

datatype goto = response_agent | END_goto

datatype route = tool_handler_route | END_route

text \<open>The request that \<open>triage_router\<close> sends to \<open>llm_router\<close>.\<close>

definition triage_request :: "prompts \<Rightarrow> email \<Rightarrow> message list" where
  "triage_request p e =
     (case parse_email e of (author', to', subject', email_thread') \<Rightarrow>
        let system_prompt =
              triage_system_prompt (default_background p) (default_triage_instructions p);
            user_prompt = triage_user_prompt p author' to' subject' email_thread'
        in [SystemMessage system_prompt, HumanMessage user_prompt])"

text \<open>
  \<open>triage_router\<close>: one call of the port, then the three branches and the final
  \<open>raise ValueError\<close>. The result is the \<open>Command\<close>: its target and its update.
\<close>

definition triage_router :: "prompts \<Rightarrow> port \<Rightarrow> State \<Rightarrow> event list \<times> (error + goto \<times> update)" where
  "triage_router p pt st =
     (case parse_email (email_input st) of (author', to', subject', email_thread') \<Rightarrow>
      let req = triage_request p (email_input st) in
      ([Classify req],
       case classify pt req of
         Inl e \<Rightarrow> Inl e
       | Inr result \<Rightarrow>
           if classification result = ''respond'' then
             Inr (response_agent,
                  \<lparr> u_messages =
                      Some [(None,
                             HumanMessage (''Respond to the email: \<newline>\<newline>''
                               @ format_email_markdown p subject' author' to' email_thread'))],
                    u_email_input = None,
                    u_classification_decision = Some (classification result) \<rparr>)
           else if classification result = ''ignore'' then
             Inr (END_goto,
                  \<lparr> u_messages = None, u_email_input = None,
                    u_classification_decision = Some (classification result) \<rparr>)
           else if classification result = ''notify'' then
             Inr (END_goto,
                  \<lparr> u_messages = None, u_email_input = None,
                    u_classification_decision = Some (classification result) \<rparr>)
           else Inl (ValueError (''Invalid classification: '' @ classification result))))"

text \<open>
  The request that \<open>llm_call\<close> sends: the dictionary of the formatted system prompt,
  then the messages of the state, with their ids.
\<close>

definition llm_request :: "prompts \<Rightarrow> State \<Rightarrow> entry list" where
  "llm_request p st =
     (None,
      SystemMessage (agent_system_prompt p (AGENT_TOOLS_PROMPT p) (default_background p)
                       (default_response_preferences p) (default_cal_preferences p)))
     # map (\<lambda>(i, m). (Some i, m)) (messages st)"

definition llm_call :: "prompts \<Rightarrow> port \<Rightarrow> State \<Rightarrow> event list \<times> (error + update)" where
  "llm_call p pt st =
     (let req = llm_request p st in
      ([Act req],
       case act pt req of
         Inl e \<Rightarrow> Inl e
       | Inr (i, content, tcs) \<Rightarrow>
           Inr \<lparr> u_messages = Some [(Some i, AIMessage content tcs)], u_email_input = None,
                 u_classification_decision = None \<rparr>))"

text \<open>
  \<open>state["messages"][-1].tool_calls\<close>: an empty list of messages raises \<open>IndexError\<close>,
  a last message that is not the model's has no \<open>tool_calls\<close>.
\<close>

definition last_tool_calls :: "State \<Rightarrow> error + tool_call list" where
  "last_tool_calls st =
     (if messages st = [] then Inl IndexError
      else case snd (last (messages st)) of
             AIMessage content tcs \<Rightarrow> Inr tcs
           | _ \<Rightarrow> Inl AttributeError)"

text \<open>
  The loop of \<open>tool_handler\<close> over the tool calls, with \<open>result\<close> as accumulator. A name
  that is not in \<open>tools_by_name\<close> raises \<open>KeyError\<close> before anything is invoked for it; a
  tool that raises ends the loop after its invocation. The tool messages are
  dictionaries, without id.
\<close>

fun tool_loop :: "(string \<rightharpoonup> tool) \<Rightarrow> tool_call list \<Rightarrow> entry list \<Rightarrow> event list \<times> (error + entry list)" where
  "tool_loop tbn [] result = ([], Inr result)"
| "tool_loop tbn (tc # tcs) result =
     (case tbn (name tc) of
        None \<Rightarrow> ([], Inl (KeyError (name tc)))
      | Some tool \<Rightarrow>
          (case tool (args tc) of
             Inl e \<Rightarrow> ([Invoke (name tc) (args tc)], Inl e)
           | Inr observation \<Rightarrow>
               (case tool_loop tbn tcs
                       (result @ [(None, ToolMessage observation (call_id tc))]) of
                  (evs, r) \<Rightarrow> (Invoke (name tc) (args tc) # evs, r))))"

definition tool_handler :: "(string \<rightharpoonup> tool) \<Rightarrow> State \<Rightarrow> event list \<times> (error + update)" where
  "tool_handler tbn st =
     (case last_tool_calls st of
        Inl e \<Rightarrow> ([], Inl e)
      | Inr tcs \<Rightarrow>
          (case tool_loop tbn tcs [] of
             (evs, Inl e) \<Rightarrow> (evs, Inl e)
           | (evs, Inr result) \<Rightarrow>
               (evs, Inr \<lparr> u_messages = Some result, u_email_input = None,
                           u_classification_decision = None \<rparr>)))"

text \<open>
  The \<open>for\<close> loop of \<open>should_continue\<close>: both branches of its body return, so the first
  tool call decides. Leaving the loop, or never entering it, returns no route.
\<close>

fun should_continue_loop :: "tool_call list \<Rightarrow> route option" where
  "should_continue_loop [] = None"
| "should_continue_loop (tc # tcs) =
     (if name tc = ''Done'' then Some END_route else Some tool_handler_route)"

definition should_continue :: "State \<Rightarrow> error + route option" where
  "should_continue st =
     (case last_tool_calls st of
        Inl e \<Rightarrow> Inl e
      | Inr tcs \<Rightarrow> if tcs \<noteq> [] then Inr (should_continue_loop tcs) else Inr None)"

section \<open>The graph\<close>

text \<open>
  The nodes and edges of the compiled workflow, with the nodes of the agent graph in place
  of its node \<open>response_agent\<close>: \<open>START \<rightarrow> triage_router\<close>, whose \<open>Command\<close> goes to the
  agent, which starts at \<open>llm_call\<close>, or ends the run; \<open>llm_call\<close> is followed by the
  conditional edge \<open>should_continue\<close>, \<open>tool_handler\<close> by \<open>llm_call\<close>. A run is at a
  node, completed, or failed with the error that a node, an edge or the library raised.
  The conditional edge has the targets \<open>tool_handler\<close> and \<open>END\<close> only; an answer that
  is neither (no route) is a \<open>KeyError\<close>. A configuration also holds the log and the
  number of ids generated so far.
\<close>

datatype pc = At node | Completed | Failed error

record config =
  pc :: pc
  state :: State
  log :: "event list"
  uuids :: nat

definition step :: "(nat \<Rightarrow> string) \<Rightarrow> prompts \<Rightarrow> port \<Rightarrow> (string \<rightharpoonup> tool) \<Rightarrow> config \<Rightarrow> config" where
  "step uuid4 p pt tbn c =
     (case pc c of
        At TriageRouter \<Rightarrow>
          (case triage_router p pt (state c) of
             (evs, Inl e) \<Rightarrow>
               c \<lparr> pc := Failed e, log := log c @ Visit TriageRouter # evs \<rparr>
           | (evs, Inr (g, u)) \<Rightarrow>
               (case apply_update uuid4 (uuids c) (state c) u of
                  (st', n') \<Rightarrow>
                    \<lparr> pc = (case g of response_agent \<Rightarrow> At LlmCall | END_goto \<Rightarrow> Completed),
                      state = st',
                      log = log c @ Visit TriageRouter # evs,
                      uuids = n' \<rparr>))
      | At LlmCall \<Rightarrow>
          (case llm_call p pt (state c) of
             (evs, Inl e) \<Rightarrow>
               c \<lparr> pc := Failed e, log := log c @ Visit LlmCall # evs \<rparr>
           | (evs, Inr u) \<Rightarrow>
               (case apply_update uuid4 (uuids c) (state c) u of
                  (st', n') \<Rightarrow>
                    \<lparr> pc = (case should_continue st' of
                              Inl e \<Rightarrow> Failed e
                            | Inr None \<Rightarrow> Failed (KeyError ''None'')
                            | Inr (Some tool_handler_route) \<Rightarrow> At ToolHandler
                            | Inr (Some END_route) \<Rightarrow> Completed),
                      state = st',
                      log = log c @ Visit LlmCall # evs,
                      uuids = n' \<rparr>))
      | At ToolHandler \<Rightarrow>
          (case tool_handler tbn (state c) of
             (evs, Inl e) \<Rightarrow>
               c \<lparr> pc := Failed e, log := log c @ Visit ToolHandler # evs \<rparr>
           | (evs, Inr u) \<Rightarrow>
               (case apply_update uuid4 (uuids c) (state c) u of
                  (st', n') \<Rightarrow>
                    \<lparr> pc = At LlmCall,
                      state = st',
                      log = log c @ Visit ToolHandler # evs,
                      uuids = n' \<rparr>))
      | Completed \<Rightarrow> c
      | Failed e \<Rightarrow> c)"

fun running :: "pc \<Rightarrow> bool" where
  "running (At n) = True"
| "running Completed = False"
| "running (Failed e) = False"

text \<open>
  The library runs a compiled graph for a bounded number of steps: it counts them against
  the recursion limit of the run's configuration (25 when none is given, as here) and
  raises \<open>GraphRecursionError\<close> when the bound is used up and the run is still at a node.
  The bound is the first argument of \<open>run\<close>.
\<close>

fun run :: "nat \<Rightarrow> (nat \<Rightarrow> string) \<Rightarrow> prompts \<Rightarrow> port \<Rightarrow> (string \<rightharpoonup> tool) \<Rightarrow> config \<Rightarrow> config" where
  "run 0 uuid4 p pt tbn c =
     (if running (pc c) then c \<lparr> pc := Failed GraphRecursionError \<rparr> else c)"
| "run (Suc k) uuid4 p pt tbn c =
     (if running (pc c) then run k uuid4 p pt tbn (step uuid4 p pt tbn c) else c)"

text \<open>\<open>agent.invoke(state)\<close>, the agent graph alone: \<open>START \<rightarrow> llm_call\<close>.\<close>

definition agent :: "nat \<Rightarrow> (nat \<Rightarrow> string) \<Rightarrow> prompts \<Rightarrow> port \<Rightarrow> (string \<rightharpoonup> tool) \<Rightarrow> State \<Rightarrow> config" where
  "agent limit uuid4 p pt tbn st =
     run limit uuid4 p pt tbn \<lparr> pc = At LlmCall, state = st, log = [], uuids = 0 \<rparr>"

text \<open>
  \<open>overall_workflow.invoke(..)\<close>. The workflow has two nodes, \<open>triage_router\<close> and
  \<open>response_agent\<close>, and each is one of its steps; \<open>response_agent\<close> is the compiled
  agent, a run of its own under the same bound.
\<close>

definition overall_workflow :: "nat \<Rightarrow> (nat \<Rightarrow> string) \<Rightarrow> prompts \<Rightarrow> port \<Rightarrow> (string \<rightharpoonup> tool) \<Rightarrow> State \<Rightarrow> config" where
  "overall_workflow limit uuid4 p pt tbn st =
     (case limit of
        0 \<Rightarrow> \<lparr> pc = Failed GraphRecursionError, state = st, log = [], uuids = 0 \<rparr>
      | Suc k \<Rightarrow>
          (let c = step uuid4 p pt tbn \<lparr> pc = At TriageRouter, state = st, log = [], uuids = 0 \<rparr>
           in if running (pc c)
              then (case k of
                      0 \<Rightarrow> c \<lparr> pc := Failed GraphRecursionError \<rparr>
                    | Suc j \<Rightarrow> run limit uuid4 p pt tbn c)
              else c))"

text \<open>\<open>overall_workflow.invoke({"email_input": email_input})\<close> starts from this state.\<close>

definition initial_state :: "email \<Rightarrow> State" where
  "initial_state e = \<lparr> messages = [], email_input = e, classification_decision = None \<rparr>"

section \<open>Vocabulary of the properties\<close>

text \<open>The log entry of the invocation that a tool call asks for.\<close>

definition invocation :: "tool_call \<Rightarrow> event" where
  "invocation tc = Invoke (name tc) (args tc)"

text \<open>
  What serving a tool call comes to: the observation of the call's tool on the call's
  arguments, or the error of the lookup or of the tool. A call is served when this is an
  observation; the message that answers it is the dictionary that holds the observation
  under the call's id.
\<close>

definition outcome :: "(string \<rightharpoonup> tool) \<Rightarrow> tool_call \<Rightarrow> error + string" where
  "outcome tbn tc =
     (case tbn (name tc) of
        None \<Rightarrow> Inl (KeyError (name tc))
      | Some tool \<Rightarrow> tool (args tc))"


definition answers :: "(string \<rightharpoonup> tool) \<Rightarrow> tool_call \<Rightarrow> entry \<Rightarrow> bool" where
  "answers tbn tc m =
     (case outcome tbn tc of
        Inl e \<Rightarrow> False
      | Inr observation \<Rightarrow> m = (None, ToolMessage observation (call_id tc)))"

text \<open>Inside the agent, the email and the classification decision stay what they were.\<close>

definition frame_inv :: "email \<Rightarrow> string option \<Rightarrow> config \<Rightarrow> bool" where
  "frame_inv e d c =
     (pc c \<noteq> At TriageRouter \<and> email_input (state c) = e
      \<and> classification_decision (state c) = d)"

text \<open>The requests to the Decision Port in a log.\<close>

fun is_act :: "event \<Rightarrow> bool" where
  "is_act (Act req) = True"
| "is_act ev = False"

fun is_classify :: "event \<Rightarrow> bool" where
  "is_classify (Classify req) = True"
| "is_classify ev = False"

definition act_calls :: "event list \<Rightarrow> nat" where
  "act_calls evs = length (filter is_act evs)"

text \<open>
  The classification requests in the log of a run: none before the router has run, and
  after it the one request built from the email.
\<close>

definition classify_inv :: "prompts \<Rightarrow> message list \<Rightarrow> config \<Rightarrow> bool" where
  "classify_inv p req c =
     (if pc c = At TriageRouter
      then filter is_classify (log c) = [] \<and> triage_request p (email_input (state c)) = req
      else filter is_classify (log c) = [Classify req])"

text \<open>
  The triage request as the specification words it, to compare with \<open>triage_request\<close>:
  the message fields together with the background and triage-rule preference documents
  read from a Memory Store, which maps a namespace to the text of its document.
\<close>

type_synonym memory_store = "string \<Rightarrow> string"

definition spec_triage_request :: "memory_store \<Rightarrow> prompts \<Rightarrow> email \<Rightarrow> message list" where
  "spec_triage_request store p e =
     [SystemMessage (triage_system_prompt (store ''background'') (store ''triage_preferences'')),
      HumanMessage (triage_user_prompt p (author e) (to e) (subject e) (email_thread e))]"

text \<open>
  The requests to the Decision Port by the number of steps of the agent: after an even
  number of steps the agent is at \<open>llm_call\<close>, after an odd number at \<open>tool_handler\<close>,
  and it has made one request for every visit of \<open>llm_call\<close>.
\<close>

definition rounds_inv :: "nat \<Rightarrow> config \<Rightarrow> bool" where
  "rounds_inv k c =
     (case pc c of
        At TriageRouter \<Rightarrow> False
      | At LlmCall \<Rightarrow> even k \<and> act_calls (log c) = k div 2
      | At ToolHandler \<Rightarrow> odd k \<and> act_calls (log c) = Suc k div 2
      | Completed \<Rightarrow> act_calls (log c) \<le> Suc k div 2
      | Failed e \<Rightarrow> act_calls (log c) \<le> Suc k div 2)"


text \<open>
  The ids of the tool calls requested in a conversation, and the ids that its tool
  messages carry, both in the order of the conversation.
\<close>

definition calls_of :: "message \<Rightarrow> string list" where
  "calls_of m = (case m of AIMessage content tcs \<Rightarrow> map call_id tcs | _ \<Rightarrow> [])"

definition results_of :: "message \<Rightarrow> string list" where
  "results_of m = (case m of ToolMessage content i \<Rightarrow> [i] | _ \<Rightarrow> [])"

definition call_ids :: "message list \<Rightarrow> string list" where
  "call_ids ms = concat (map calls_of ms)"

definition result_ids :: "message list \<Rightarrow> string list" where
  "result_ids ms = concat (map results_of ms)"



section \<open>Example inputs\<close>

text \<open>Concrete prompts, an email, tool calls and Decision Ports, used to run the model.\<close>

definition example_prompts :: prompts where
  "example_prompts =
     \<lparr> default_background = ''I am Lance, a software engineer.'',
       default_triage_instructions = ''Ignore newsletters.'',
       triage_user_prompt =
         (\<lambda>a t s e. ''From: '' @ a @ ''; To: '' @ t @ ''; Subject: '' @ s @ ''; '' @ e),
       format_email_markdown =
         (\<lambda>s a t e. ''Subject: '' @ s @ ''; From: '' @ a @ ''; To: '' @ t @ ''; '' @ e),
       agent_system_prompt = (\<lambda>tp bg rp cp. tp @ bg @ rp @ cp),
       AGENT_TOOLS_PROMPT = ''tools'',
       default_response_preferences = ''be brief'',
       default_cal_preferences = ''30 minutes'' \<rparr>"

definition example_email :: email where
  "example_email =
     \<lparr> author = ''Alice Smith <alice.smith@company.com>'',
       to = ''John Doe <john.doe@company.com>'',
       subject = ''Quick question about API documentation'',
       email_thread = ''Hi John, could you help?'' \<rparr>"

text \<open>
  A validation for the examples: it takes the values of a dictionary whose values already
  have the types of the fields, which needs no conversion, and refuses every other
  dictionary. A date is its text.
\<close>

definition example_validation :: "string validation" where
  "example_validation =
     \<lparr> validate_write_email =
         (\<lambda>a. case (map_of a ''to'', map_of a ''subject'', map_of a ''content'') of
                 (Some (S t), Some (S s), Some (S c)) \<Rightarrow> Some (t, s, c)
               | _ \<Rightarrow> None),
       validate_schedule_meeting =
         (\<lambda>a. case (map_of a ''attendees'', map_of a ''subject'', map_of a ''duration_minutes'',
                     map_of a ''preferred_day'', map_of a ''start_time'') of
                 (Some (L at), Some (S s), Some (I d), Some (S day), Some (I t)) \<Rightarrow>
                   Some (at, s, d, day, t)
               | _ \<Rightarrow> None),
       validate_check_calendar_availability =
         (\<lambda>a. case map_of a ''day'' of Some (S day) \<Rightarrow> Some day | _ \<Rightarrow> None),
       validate_Done =
         (\<lambda>a. case map_of a ''done'' of Some (B b) \<Rightarrow> Some b | _ \<Rightarrow> None),
       strftime = (\<lambda>d. d) \<rparr>"

definition example_tools :: "string \<rightharpoonup> tool" where
  "example_tools = tools_by_name example_validation"

text \<open>The ids that the example runs generate: \<open>u\<close>, \<open>u0\<close>, \<open>u00\<close> and so on.\<close>

definition example_uuid4 :: "nat \<Rightarrow> string" where
  "example_uuid4 k = CHR ''u'' # replicate k (CHR ''0'')"

text \<open>
  A Decision Port that gives the same classification and the same tool calls every time;
  the id of its answer is as long as the request, so that the ids of its answers in a
  conversation that grows are all different.
\<close>

definition port_const :: "string \<Rightarrow> tool_call list \<Rightarrow> port" where
  "port_const cls tcs =
     \<lparr> classify = (\<lambda>req. Inr \<lparr> reasoning = ''r'', classification = cls \<rparr>),
       act = (\<lambda>req. Inr (map (\<lambda>x. CHR ''r'') req, '''', tcs)) \<rparr>"

definition call_write_email :: tool_call where
  "call_write_email =
     \<lparr> name = ''write_email'',
       args = [(''to'', S ''alice.smith@company.com''), (''subject'', S ''Re: API''),
               (''content'', S ''Will check.'')],
       call_id = ''call_1'' \<rparr>"

definition call_Done :: tool_call where
  "call_Done = \<lparr> name = ''Done'', args = [(''done'', B True)], call_id = ''call_2'' \<rparr>"

definition call_check :: tool_call where
  "call_check =
     \<lparr> name = ''check_calendar_availability'', args = [(''day'', S ''Monday'')],
       call_id = ''call_3'' \<rparr>"

text \<open>The state in which the agent starts after a \<open>respond\<close> classification.\<close>

definition example_state :: State where
  "example_state =
     \<lparr> messages = [(''m'', HumanMessage ''Respond to the email'')],
       email_input = example_email,
       classification_decision = Some ''respond'' \<rparr>"

text \<open>A state in which the model has just asked for two tools.\<close>

definition example_dispatch_state :: State where
  "example_dispatch_state =
     example_state
       \<lparr> messages :=
           messages example_state @ [(''rr'', AIMessage '''' [call_check, call_write_email])] \<rparr>"

text \<open>A Memory Store whose documents are not the default ones.\<close>

definition example_store :: memory_store where
  "example_store ns =
     (if ns = ''background'' then ''Lance is now a product manager.''
      else ''Notify about every invoice.'')"



section \<open>Runs\<close>

lemma step_stutter: "\<not> running (pc c) \<Longrightarrow> step uuid4 p pt tbn c = c"
  by (cases "pc c") (simp_all add: step_def)

lemma funpow_stopped: "\<not> running (pc c) \<Longrightarrow> (step uuid4 p pt tbn ^^ n) c = c"
  by (induction n) (simp_all add: step_stutter)

lemma run_stop: "\<not> running (pc c) \<Longrightarrow> run n uuid4 p pt tbn c = c"
  by (cases n) simp_all


text \<open>A run under a bound is that many steps, and failure if it is then still at a node.\<close>

lemma run_funpow:
  "run n uuid4 p pt tbn c =
     (if running (pc ((step uuid4 p pt tbn ^^ n) c))
      then ((step uuid4 p pt tbn ^^ n) c) \<lparr> pc := Failed GraphRecursionError \<rparr>
      else (step uuid4 p pt tbn ^^ n) c)"
proof (induction n arbitrary: c)
  case 0
  show ?case by simp
next
  case (Suc n)
  show ?case
  proof (cases "running (pc c)")
    case True
    with Suc[of "step uuid4 p pt tbn c"] show ?thesis by (simp add: funpow_swap1)
  next
    case False
    then show ?thesis by (simp add: funpow_stopped del: funpow.simps)
  qed
qed

lemma run_not_running: "\<not> running (pc (run n uuid4 p pt tbn c))"
  by (simp add: run_funpow)

lemma funpow_invariant:
  assumes "Inv c" and "\<And>c. Inv c \<Longrightarrow> Inv (step uuid4 p pt tbn c)"
  shows "Inv ((step uuid4 p pt tbn ^^ n) c)"
  by (induction n) (simp_all add: assms)

text \<open>The update logic of \<open>messages\<close> touches neither of the other keys.\<close>

lemma apply_update_frame:
  "email_input (fst (apply_update uuid4 n st u))
     = (case u_email_input u of None \<Rightarrow> email_input st | Some e \<Rightarrow> e)"
  "classification_decision (fst (apply_update uuid4 n st u))
     = (case u_classification_decision u of None \<Rightarrow> classification_decision st | Some d \<Rightarrow> Some d)"
  by (simp_all add: apply_update_def split: prod.splits option.splits)

lemma apply_update_no_messages:
  "u_messages u = None \<Longrightarrow>
   apply_update uuid4 n st u =
     (\<lparr> messages = messages st,
        email_input = (case u_email_input u of None \<Rightarrow> email_input st | Some e \<Rightarrow> e),
        classification_decision =
          (case u_classification_decision u of
             None \<Rightarrow> classification_decision st
           | Some d \<Rightarrow> Some d) \<rparr>, n)"
  by (simp add: apply_update_def)


lemma example_uuid4_eq [simp]: "example_uuid4 j = example_uuid4 k \<longleftrightarrow> j = k"
proof
  assume "example_uuid4 j = example_uuid4 k"
  then have "length (example_uuid4 j) = length (example_uuid4 k)" by simp
  then show "j = k" by (simp add: example_uuid4_def)
qed simp

section \<open>The conditional edge\<close>

text \<open>
  C9. On a last message with a non-empty list of tool calls, \<open>should_continue\<close> returns a
  route, \<open>END\<close> or \<open>tool_handler\<close>, and the first tool call alone decides which; on a
  last message with an empty list it returns no route.
\<close>

theorem should_continue_first_tool_call:
  "should_continue (st\<lparr>messages := ms @ [(i, AIMessage content (tc # rest))]\<rparr>)
     = Inr (Some (if name tc = ''Done'' then END_route else tool_handler_route))
   \<and> should_continue (st\<lparr>messages := ms @ [(i, AIMessage content [])]\<rparr>) = Inr None"
  by (simp add: should_continue_def last_tool_calls_def)

text \<open>
  C1. The claim asks that a \<open>Done\<close> call is never run as a tool, wherever it stands in the
  batch. Here the Decision Port answers with \<open>write_email\<close> first and \<open>Done\<close> second:
  the edge after \<open>llm_call\<close> goes to \<open>tool_handler\<close>, which invokes \<open>Done\<close> and appends
  a tool message for it, and the run is back at \<open>llm_call\<close>.
\<close>

theorem done_in_second_position_is_invoked:
  "step example_uuid4 example_prompts (port_const ''respond'' [call_write_email, call_Done])
     example_tools
     (step example_uuid4 example_prompts (port_const ''respond'' [call_write_email, call_Done])
        example_tools
        \<lparr> pc = At LlmCall, state = example_state, log = [], uuids = 0 \<rparr>)
   = \<lparr> pc = At LlmCall,
       state = example_state
         \<lparr> messages :=
             [(''m'', HumanMessage ''Respond to the email''),
              (''rr'', AIMessage '''' [call_write_email, call_Done]),
              (''u'', ToolMessage (''Email sent to alice.smith@company.com with subject ''
                                  @ [CHR 0x27] @ ''Re: API'' @ [CHR 0x27]
                                  @ '' and content: Will check.'') ''call_1''),
              (''u0'', ToolMessage ''done=True'' ''call_2'')] \<rparr>,
       log = [Visit LlmCall, Act (llm_request example_prompts example_state),
              Visit ToolHandler,
              Invoke ''write_email'' (args call_write_email),
              Invoke ''Done'' [(''done'', B True)]],
       uuids = 2 \<rparr>"
  by (simp add: step_def llm_call_def llm_request_def port_const_def apply_update_def
        add_messages_def should_continue_def last_tool_calls_def tool_handler_def
        example_state_def call_write_email_def call_Done_def example_tools_def
        tools_by_name_def write_email_def Done_def example_validation_def example_uuid4_def
        Let_def numeral_2_eq_2)

section \<open>What the nodes return\<close>

lemma triage_router_log:
  "fst (triage_router p pt st) = [Classify (triage_request p (email_input st))]"
  by (simp add: triage_router_def parse_email_def Let_def)


lemma llm_call_log: "fst (llm_call p pt st) = [Act (llm_request p st)]"
  by (simp add: llm_call_def Let_def)

lemma llm_call_Inr:
  assumes "llm_call p pt st = (evs, Inr u)"
  shows "\<exists>i content tcs. act pt (llm_request p st) = Inr (i, content, tcs) \<and>
           u = \<lparr> u_messages = Some [(Some i, AIMessage content tcs)], u_email_input = None,
                 u_classification_decision = None \<rparr>"
  using assms by (auto simp: llm_call_def Let_def split: sum.splits)

lemma tool_loop_prefix:
  "prefix (fst (tool_loop tbn tcs acc)) (map invocation tcs)"
proof (induction tcs arbitrary: acc)
  case Nil
  then show ?case by simp
next
  case (Cons tc tcs)
  show ?case
  proof (cases "tbn (name tc)")
    case None
    then show ?thesis by simp
  next
    case (Some tool)
    show ?thesis
    proof (cases "tool (args tc)")
      case (Inl e)
      with Some show ?thesis by (simp add: invocation_def)
    next
      case (Inr observation)
      with Some Cons.IH[of "acc @ [(None, ToolMessage observation (call_id tc))]"]
      show ?thesis
        by (auto simp add: invocation_def split: prod.splits)
    qed
  qed
qed

lemma tool_loop_Inr:
  "tool_loop tbn tcs acc = (evs, Inr res) \<Longrightarrow>
   evs = map invocation tcs \<and> (\<exists>new. res = acc @ new \<and> list_all2 (answers tbn) tcs new)"
proof (induction tcs arbitrary: acc evs)
  case Nil
  then show ?case by simp
next
  case (Cons tc tcs)
  from Cons.prems obtain tool observation evs' where
    t: "tbn (name tc) = Some tool" "tool (args tc) = Inr observation"
    and rec: "tool_loop tbn tcs (acc @ [(None, ToolMessage observation (call_id tc))])
                = (evs', Inr res)"
    and evs: "evs = Invoke (name tc) (args tc) # evs'"
    by (auto split: option.splits sum.splits prod.splits)
  from Cons.IH[OF rec] obtain new where
    new: "evs' = map invocation tcs"
      "res = (acc @ [(None, ToolMessage observation (call_id tc))]) @ new"
      "list_all2 (answers tbn) tcs new" by blast
  have "answers tbn tc (None, ToolMessage observation (call_id tc))"
    using t by (simp add: answers_def outcome_def)
  with new have "res = acc @ ((None, ToolMessage observation (call_id tc)) # new)
       \<and> list_all2 (answers tbn) (tc # tcs) ((None, ToolMessage observation (call_id tc)) # new)"
    by simp
  with evs new(1) show ?case by (auto simp: invocation_def)
qed

lemma tool_handler_Inr:
  assumes "tool_handler tbn st = (evs, Inr u)"
  shows "\<exists>tcs res. last_tool_calls st = Inr tcs \<and> list_all2 (answers tbn) tcs res
           \<and> evs = map invocation tcs
           \<and> u = \<lparr> u_messages = Some res, u_email_input = None,
                   u_classification_decision = None \<rparr>"
proof -
  from assms obtain tcs where l: "last_tool_calls st = Inr tcs"
    by (auto simp: tool_handler_def split: sum.splits)
  with assms obtain res where tl: "tool_loop tbn tcs [] = (evs, Inr res)"
    and u: "u = \<lparr> u_messages = Some res, u_email_input = None,
                  u_classification_decision = None \<rparr>"
    by (auto simp: tool_handler_def split: sum.splits prod.splits)
  from tool_loop_Inr[OF tl] have "list_all2 (answers tbn) tcs res" "evs = map invocation tcs"
    by simp_all
  with l u show ?thesis by blast
qed

lemma tool_handler_events:
  assumes "ev \<in> set (fst (tool_handler tbn st))"
  shows "\<exists>n a. ev = Invoke n a"
proof (cases "last_tool_calls st")
  case (Inl e)
  with assms show ?thesis by (simp add: tool_handler_def)
next
  case (Inr tcs)
  have "fst (tool_handler tbn st) = fst (tool_loop tbn tcs [])"
    using Inr by (simp add: tool_handler_def split: prod.splits sum.splits)
  with assms set_mono_prefix[OF tool_loop_prefix[of tbn tcs "[]"]]
  have "ev \<in> set (map invocation tcs)"
    by auto
  then show ?thesis by (auto simp: invocation_def)
qed

lemma step_log:
  "pc c = At TriageRouter \<Longrightarrow>
     log (step uuid4 p pt tbn c)
       = log c @ [Visit TriageRouter, Classify (triage_request p (email_input (state c)))]"
  "pc c = At LlmCall \<Longrightarrow>
     log (step uuid4 p pt tbn c) = log c @ [Visit LlmCall, Act (llm_request p (state c))]"
  "pc c = At ToolHandler \<Longrightarrow>
     log (step uuid4 p pt tbn c) = log c @ Visit ToolHandler # fst (tool_handler tbn (state c))"
proof -
  assume a: "pc c = At TriageRouter"
  obtain evs r where tr: "triage_router p pt (state c) = (evs, r)"
    by (cases "triage_router p pt (state c)")
  with triage_router_log[of p pt "state c"]
  have "evs = [Classify (triage_request p (email_input (state c)))]" by simp
  with a tr show "log (step uuid4 p pt tbn c)
      = log c @ [Visit TriageRouter, Classify (triage_request p (email_input (state c)))]"
    by (simp add: step_def split: sum.splits prod.splits)
next
  assume a: "pc c = At LlmCall"
  obtain evs r where lc: "llm_call p pt (state c) = (evs, r)"
    by (cases "llm_call p pt (state c)")
  with llm_call_log[of p pt "state c"] have "evs = [Act (llm_request p (state c))]" by simp
  with a lc show "log (step uuid4 p pt tbn c)
      = log c @ [Visit LlmCall, Act (llm_request p (state c))]"
    by (simp add: step_def split: sum.splits prod.splits)
next
  assume a: "pc c = At ToolHandler"
  obtain evs r where th: "tool_handler tbn (state c) = (evs, r)"
    by (cases "tool_handler tbn (state c)")
  with a show "log (step uuid4 p pt tbn c)
      = log c @ Visit ToolHandler # fst (tool_handler tbn (state c))"
    by (simp add: step_def split: sum.splits prod.splits)
qed

lemma step_pc_not_triage:
  "pc (step uuid4 p pt tbn c) \<noteq> At TriageRouter \<or> \<not> running (pc c)"
proof (cases "pc c")
  case (At n)
  show ?thesis
  proof (cases n)
    case TriageRouter
    with At show ?thesis
      by (auto simp: step_def split: prod.splits sum.splits goto.splits)
  next
    case LlmCall
    with At show ?thesis
      by (auto simp: step_def split: prod.splits sum.splits option.splits route.splits)
  next
    case ToolHandler
    with At show ?thesis
      by (auto simp: step_def split: prod.splits sum.splits)
  qed
qed simp_all

text \<open>
  The workflow under a bound of at least one step, in steps of the graph: its log and its
  state are those reached by some number of steps, and so is its place, unless the bound
  has cut the run short.
\<close>

lemma overall_workflow_funpow:
  "\<exists>m. 0 < m
     \<and> log (overall_workflow (Suc k) uuid4 p pt tbn st)
         = log ((step uuid4 p pt tbn ^^ m) \<lparr> pc = At TriageRouter, state = st, log = [], uuids = 0 \<rparr>)
     \<and> state (overall_workflow (Suc k) uuid4 p pt tbn st)
         = state ((step uuid4 p pt tbn ^^ m) \<lparr> pc = At TriageRouter, state = st, log = [], uuids = 0 \<rparr>)
     \<and> (pc (overall_workflow (Suc k) uuid4 p pt tbn st)
           = pc ((step uuid4 p pt tbn ^^ m) \<lparr> pc = At TriageRouter, state = st, log = [], uuids = 0 \<rparr>)
         \<or> pc (overall_workflow (Suc k) uuid4 p pt tbn st) = Failed GraphRecursionError)"
proof -
  let ?c0 = "\<lparr> pc = At TriageRouter, state = st, log = [], uuids = 0 \<rparr>"
  let ?f = "step uuid4 p pt tbn"
  show ?thesis
  proof (cases "running (pc (?f ?c0))")
    case False
    then have "overall_workflow (Suc k) uuid4 p pt tbn st = (?f ^^ 1) ?c0"
      by (simp add: overall_workflow_def)
    then show ?thesis by (intro exI[of _ 1]) simp
  next
    case True
    show ?thesis
    proof (cases k)
      case 0
      with True have "overall_workflow (Suc k) uuid4 p pt tbn st
          = ((?f ^^ 1) ?c0) \<lparr> pc := Failed GraphRecursionError \<rparr>"
        by (simp add: overall_workflow_def)
      then show ?thesis by (intro exI[of _ 1]) simp
    next
      case (Suc j)
      with True have "overall_workflow (Suc k) uuid4 p pt tbn st
          = run (Suc k) uuid4 p pt tbn (?f ?c0)"
        by (simp add: overall_workflow_def)
      also have "\<dots> = (if running (pc ((?f ^^ Suc (Suc k)) ?c0))
                       then ((?f ^^ Suc (Suc k)) ?c0) \<lparr> pc := Failed GraphRecursionError \<rparr>
                       else (?f ^^ Suc (Suc k)) ?c0)"
        by (simp only: run_funpow funpow_Suc_right o_apply)
      finally show ?thesis by (intro exI[of _ "Suc (Suc k)"]) (simp del: funpow.simps)
    qed
  qed
qed

section \<open>Triage\<close>

text \<open>
  C4. When the classification that the Decision Port returns is none of \<open>ignore\<close>,
  \<open>respond\<close>, \<open>notify\<close>, the router raises: it returns no \<open>Command\<close>, and the workflow
  fails with the state it was given, after the one request to the port.
\<close>

theorem triage_invalid_classification_fails:
  assumes "classify pt (triage_request p (email_input st)) = Inr result"
    and "classification result \<notin> {''ignore'', ''respond'', ''notify''}"
  shows "snd (triage_router p pt st)
           = Inl (ValueError (''Invalid classification: '' @ classification result))
         \<and> overall_workflow (Suc k) uuid4 p pt tbn st
           = \<lparr> pc = Failed (ValueError (''Invalid classification: '' @ classification result)),
               state = st,
               log = [Visit TriageRouter, Classify (triage_request p (email_input st))],
               uuids = 0 \<rparr>"
proof -
  have r: "triage_router p pt st
        = ([Classify (triage_request p (email_input st))],
           Inl (ValueError (''Invalid classification: '' @ classification result)))"
    using assms by (simp add: triage_router_def parse_email_def)
  have "step uuid4 p pt tbn \<lparr> pc = At TriageRouter, state = st, log = [], uuids = 0 \<rparr>
        = \<lparr> pc = Failed (ValueError (''Invalid classification: '' @ classification result)),
            state = st,
            log = [Visit TriageRouter, Classify (triage_request p (email_input st))],
            uuids = 0 \<rparr>"
    by (simp add: step_def r)
  then show ?thesis
    by (simp add: overall_workflow_def r)
qed

theorem triage_invalid_classification_fails_witness:
  "classify (port_const ''spam'' []) (triage_request example_prompts example_email)
     = Inr \<lparr> reasoning = ''r'', classification = ''spam'' \<rparr>
   \<and> ''spam'' \<notin> {''ignore'', ''respond'', ''notify''}
   \<and> snd (triage_router example_prompts (port_const ''spam'' []) (initial_state example_email))
     = Inl (ValueError ''Invalid classification: spam'')
   \<and> overall_workflow 25 example_uuid4 example_prompts (port_const ''spam'' []) example_tools
       (initial_state example_email)
     = \<lparr> pc = Failed (ValueError ''Invalid classification: spam''),
         state = initial_state example_email,
         log = [Visit TriageRouter,
                Classify (triage_request example_prompts example_email)],
         uuids = 0 \<rparr>"
  using triage_invalid_classification_fails
    [of "port_const ''spam'' []" example_prompts "initial_state example_email"
        "\<lparr> reasoning = ''r'', classification = ''spam'' \<rparr>" 24 example_uuid4 example_tools]
  by (simp add: port_const_def initial_state_def)

text \<open>
  C3. When the classification is \<open>ignore\<close> or \<open>notify\<close>, the router's \<open>Command\<close> goes to
  \<open>END\<close> and updates the classification decision only; the workflow completes after the
  router's step, so its log holds the visit of the router and the one classification
  request, and no visit of \<open>llm_call\<close> or \<open>tool_handler\<close>; the final state records the
  classification.
\<close>

theorem ignore_notify_end_without_agent:
  assumes "classify pt (triage_request p (email_input st)) = Inr result"
    and "classification result \<in> {''ignore'', ''notify''}"
  shows "snd (triage_router p pt st)
           = Inr (END_goto, \<lparr> u_messages = None, u_email_input = None,
                    u_classification_decision = Some (classification result) \<rparr>)
         \<and> overall_workflow (Suc k) uuid4 p pt tbn st
           = \<lparr> pc = Completed,
               state = st \<lparr> classification_decision := Some (classification result) \<rparr>,
               log = [Visit TriageRouter, Classify (triage_request p (email_input st))],
               uuids = 0 \<rparr>"
proof -
  have r: "triage_router p pt st
        = ([Classify (triage_request p (email_input st))],
           Inr (END_goto, \<lparr> u_messages = None, u_email_input = None,
                    u_classification_decision = Some (classification result) \<rparr>))"
    using assms by (auto simp add: triage_router_def parse_email_def)
  have "step uuid4 p pt tbn \<lparr> pc = At TriageRouter, state = st, log = [], uuids = 0 \<rparr>
        = \<lparr> pc = Completed,
            state = st \<lparr> classification_decision := Some (classification result) \<rparr>,
            log = [Visit TriageRouter, Classify (triage_request p (email_input st))],
            uuids = 0 \<rparr>"
    by (simp add: step_def r apply_update_no_messages)
  then show ?thesis
    by (simp add: overall_workflow_def r)
qed

theorem ignore_notify_end_without_agent_witness:
  "classify (port_const ''notify'' [call_check]) (triage_request example_prompts example_email)
     = Inr \<lparr> reasoning = ''r'', classification = ''notify'' \<rparr>
   \<and> ''notify'' \<in> {''ignore'', ''notify''}
   \<and> overall_workflow 25 example_uuid4 example_prompts (port_const ''notify'' [call_check])
       example_tools (initial_state example_email)
     = \<lparr> pc = Completed,
         state = \<lparr> messages = [], email_input = example_email,
                   classification_decision = Some ''notify'' \<rparr>,
         log = [Visit TriageRouter,
                Classify (triage_request example_prompts example_email)],
         uuids = 0 \<rparr>"
  using ignore_notify_end_without_agent
    [of "port_const ''notify'' [call_check]" example_prompts "initial_state example_email"
        "\<lparr> reasoning = ''r'', classification = ''notify'' \<rparr>" 24 example_uuid4 example_tools]
  by (simp add: port_const_def initial_state_def)

section \<open>The triage request\<close>

text \<open>
  C7, as it is stated, fails: the request that the router sends is not built from the
  documents of a Memory Store. With a store whose background and triage rules are not the
  default constants, the request built as the specification words it is another one.
\<close>

theorem triage_request_not_from_store_counterexample:
  "fst (triage_router example_prompts (port_const ''respond'' []) (initial_state example_email))
     \<noteq> [Classify (spec_triage_request example_store example_prompts example_email)]"
  by (simp add: triage_router_log triage_request_def parse_email_def spec_triage_request_def
      triage_system_prompt_def example_store_def example_prompts_def initial_state_def Let_def)

lemma tool_handler_no_classify: "filter is_classify (fst (tool_handler tbn st)) = []"
  by (auto simp: filter_empty_conv dest: tool_handler_events)

lemma classify_inv_step:
  assumes "classify_inv p req c"
  shows "classify_inv p req (step uuid4 p pt tbn c)"
proof (cases "running (pc c)")
  case False
  with assms show ?thesis by (simp add: step_stutter)
next
  case True
  with step_pc_not_triage[of uuid4 p pt tbn c]
  have nt: "pc (step uuid4 p pt tbn c) \<noteq> At TriageRouter"
    by simp
  from True obtain n where At: "pc c = At n" by (cases "pc c") simp_all
  show ?thesis
  proof (cases n)
    case TriageRouter
    with assms At nt show ?thesis by (simp add: classify_inv_def step_log)
  next
    case LlmCall
    with assms At nt show ?thesis by (simp add: classify_inv_def step_log)
  next
    case ToolHandler
    with assms At nt show ?thesis
      by (simp add: classify_inv_def step_log tool_handler_no_classify)
  qed
qed

text \<open>
  C7, amended. The router sends one request to the Decision Port, built from the author,
  recipient, subject and thread of the email and from the constants \<open>default_background\<close>
  and \<open>default_triage_instructions\<close>; and this is the only classification request in the
  log of a run of the workflow.
\<close>

theorem triage_classifies_once_from_constants:
  "fst (triage_router p pt st)
     = [Classify
          [SystemMessage
             (triage_system_prompt (default_background p) (default_triage_instructions p)),
           HumanMessage
             (triage_user_prompt p (author (email_input st)) (to (email_input st))
                (subject (email_input st)) (email_thread (email_input st)))]]
   \<and> filter is_classify (log (overall_workflow (Suc k) uuid4 p pt tbn st))
       = [Classify
            [SystemMessage
               (triage_system_prompt (default_background p) (default_triage_instructions p)),
             HumanMessage
               (triage_user_prompt p (author (email_input st)) (to (email_input st))
                  (subject (email_input st)) (email_thread (email_input st)))]]"
proof -
  let ?c0 = "\<lparr> pc = At TriageRouter, state = st, log = [], uuids = 0 \<rparr>"
  have req: "triage_request p (email_input st)
      = [SystemMessage
           (triage_system_prompt (default_background p) (default_triage_instructions p)),
         HumanMessage
           (triage_user_prompt p (author (email_input st)) (to (email_input st))
              (subject (email_input st)) (email_thread (email_input st)))]"
    by (simp add: triage_request_def parse_email_def Let_def)
  from overall_workflow_funpow[of k uuid4 p pt tbn st] obtain m where m: "0 < m"
    and l: "log (overall_workflow (Suc k) uuid4 p pt tbn st)
              = log ((step uuid4 p pt tbn ^^ m) ?c0)"
    by blast
  have i: "classify_inv p (triage_request p (email_input st)) ?c0"
    by (simp add: classify_inv_def)
  have inv: "classify_inv p (triage_request p (email_input st)) ((step uuid4 p pt tbn ^^ n) ?c0)"
    for n
    by (rule funpow_invariant[OF i classify_inv_step])
  from m obtain m' where m': "m = Suc m'" by (cases m) simp_all
  have "pc ((step uuid4 p pt tbn ^^ m) ?c0) \<noteq> At TriageRouter"
  proof (cases "running (pc ((step uuid4 p pt tbn ^^ m') ?c0))")
    case True
    with step_pc_not_triage[of uuid4 p pt tbn "(step uuid4 p pt tbn ^^ m') ?c0"] m'
    show ?thesis by simp
  next
    case False
    then have "pc ((step uuid4 p pt tbn ^^ m) ?c0) = pc ((step uuid4 p pt tbn ^^ m') ?c0)"
      by (simp add: m' step_stutter)
    with False show ?thesis by auto
  qed
  with inv[of m] have "filter is_classify (log ((step uuid4 p pt tbn ^^ m) ?c0))
      = [Classify (triage_request p (email_input st))]"
    by (simp add: classify_inv_def)
  with l triage_router_log[of p pt st] req show ?thesis by simp
qed

theorem triage_classifies_once_from_constants_witness:
  "filter is_classify
     (log (overall_workflow 25 example_uuid4 example_prompts (port_const ''respond'' [call_check])
             example_tools (initial_state example_email)))
     = [Classify
          [SystemMessage
             (triage_system_prompt ''I am Lance, a software engineer.'' ''Ignore newsletters.''),
           HumanMessage
             (triage_user_prompt example_prompts (author example_email) (to example_email)
                (subject example_email) (email_thread example_email))]]"
  using triage_classifies_once_from_constants
    [of example_prompts "port_const ''respond'' [call_check]" "initial_state example_email"
        24 example_uuid4 example_tools]
  by (simp add: initial_state_def example_prompts_def)

section \<open>What the agent leaves alone\<close>

lemma frame_inv_step: "frame_inv e d c \<Longrightarrow> frame_inv e d (step uuid4 p pt tbn c)"
proof (cases "pc c")
  case (At n)
  assume f: "frame_inv e d c"
  show ?thesis
  proof (cases n)
    case TriageRouter
    with f At show ?thesis by (simp add: frame_inv_def)
  next
    case LlmCall
    obtain evs r where lc: "llm_call p pt (state c) = (evs, r)"
      by (cases "llm_call p pt (state c)")
    show ?thesis
    proof (cases r)
      case (Inl err)
      with f At LlmCall lc show ?thesis by (simp add: step_def frame_inv_def)
    next
      case (Inr u)
      from llm_call_Inr[OF lc[unfolded Inr]]
      have u: "u_email_input u = None" "u_classification_decision u = None" by auto
      obtain st' n' where a: "apply_update uuid4 (uuids c) (state c) u = (st', n')"
        by (cases "apply_update uuid4 (uuids c) (state c) u")
      with apply_update_frame[of uuid4 "uuids c" "state c" u] u
      have "email_input st' = email_input (state c)"
        "classification_decision st' = classification_decision (state c)" by simp_all
      with f At LlmCall lc Inr a show ?thesis
        by (auto simp: step_def frame_inv_def split: sum.splits option.splits route.splits)
    qed
  next
    case ToolHandler
    obtain evs r where th: "tool_handler tbn (state c) = (evs, r)"
      by (cases "tool_handler tbn (state c)")
    show ?thesis
    proof (cases r)
      case (Inl err)
      with f At ToolHandler th show ?thesis by (simp add: step_def frame_inv_def)
    next
      case (Inr u)
      from tool_handler_Inr[OF th[unfolded Inr]]
      have u: "u_email_input u = None" "u_classification_decision u = None" by auto
      obtain st' n' where a: "apply_update uuid4 (uuids c) (state c) u = (st', n')"
        by (cases "apply_update uuid4 (uuids c) (state c) u")
      with apply_update_frame[of uuid4 "uuids c" "state c" u] u
      have "email_input st' = email_input (state c)"
        "classification_decision st' = classification_decision (state c)" by simp_all
      with f At ToolHandler th Inr a show ?thesis
        by (auto simp: step_def frame_inv_def)
    qed
  qed
next
  case Completed
  assume "frame_inv e d c"
  with Completed show ?thesis by (simp add: step_stutter)
next
  case (Failed err)
  assume "frame_inv e d c"
  with Failed show ?thesis by (simp add: step_stutter)
qed

lemma example_dispatch:
  "tool_handler example_tools example_dispatch_state
    = ([Invoke ''check_calendar_availability'' [(''day'', S ''Monday'')],
        Invoke ''write_email'' (args call_write_email)],
       Inr \<lparr> u_messages =
               Some [(None,
                      ToolMessage ''Available times on Monday: 9:00 AM, 2:00 PM, 4:00 PM''
                        ''call_3''),
                     (None,
                      ToolMessage (''Email sent to alice.smith@company.com with subject ''
                                   @ [CHR 0x27] @ ''Re: API'' @ [CHR 0x27]
                                   @ '' and content: Will check.'') ''call_1'')],
             u_email_input = None, u_classification_decision = None \<rparr>)"
  by (simp add: example_dispatch_state_def example_state_def tool_handler_def last_tool_calls_def
      call_check_def call_write_email_def example_tools_def tools_by_name_def write_email_def
      check_calendar_availability_def example_validation_def)

text \<open>
  C10. The updates that \<open>llm_call\<close> and \<open>tool_handler\<close> return hold the \<open>messages\<close> key
  only, so the email and the classification decision of the state are the same after
  either node as before it; and the state in which a run of the agent ends has the email
  and the classification decision with which it began.
\<close>

theorem agent_nodes_update_messages_only:
  "(snd (llm_call p pt st) = Inr u1 \<longrightarrow>
      u_email_input u1 = None \<and> u_classification_decision u1 = None
    \<and> email_input (fst (apply_update uuid4 k st u1)) = email_input st
    \<and> classification_decision (fst (apply_update uuid4 k st u1)) = classification_decision st)
   \<and> (snd (tool_handler tbn st) = Inr u2 \<longrightarrow>
      u_email_input u2 = None \<and> u_classification_decision u2 = None
    \<and> email_input (fst (apply_update uuid4 k st u2)) = email_input st
    \<and> classification_decision (fst (apply_update uuid4 k st u2)) = classification_decision st)
   \<and> email_input (state (agent limit uuid4 p pt tbn st)) = email_input st
   \<and> classification_decision (state (agent limit uuid4 p pt tbn st))
       = classification_decision st"
proof (intro conjI impI)
  assume "snd (llm_call p pt st) = Inr u1"
  then have "llm_call p pt st = (fst (llm_call p pt st), Inr u1)" by (metis prod.collapse)
  from llm_call_Inr[OF this]
  have u: "u_email_input u1 = None \<and> u_classification_decision u1 = None"
    by auto
  then show "u_email_input u1 = None" "u_classification_decision u1 = None"
    "email_input (fst (apply_update uuid4 k st u1)) = email_input st"
    "classification_decision (fst (apply_update uuid4 k st u1)) = classification_decision st"
    by (simp_all add: apply_update_frame)
next
  assume "snd (tool_handler tbn st) = Inr u2"
  then have "tool_handler tbn st = (fst (tool_handler tbn st), Inr u2)" by (metis prod.collapse)
  from tool_handler_Inr[OF this]
  have u: "u_email_input u2 = None \<and> u_classification_decision u2 = None"
    by auto
  then show "u_email_input u2 = None" "u_classification_decision u2 = None"
    "email_input (fst (apply_update uuid4 k st u2)) = email_input st"
    "classification_decision (fst (apply_update uuid4 k st u2)) = classification_decision st"
    by (simp_all add: apply_update_frame)
next
  have "frame_inv (email_input st) (classification_decision st)
          \<lparr> pc = At LlmCall, state = st, log = [], uuids = 0 \<rparr>"
    by (simp add: frame_inv_def)
  from funpow_invariant[where Inv = "frame_inv (email_input st) (classification_decision st)"
      and ?uuid4.0 = uuid4 and p = p and pt = pt and tbn = tbn and n = limit,
      OF this frame_inv_step]
  show "email_input (state (agent limit uuid4 p pt tbn st)) = email_input st"
    "classification_decision (state (agent limit uuid4 p pt tbn st)) = classification_decision st"
    by (simp_all add: frame_inv_def agent_def run_funpow)
qed

theorem agent_nodes_update_messages_only_witness:
  "snd (llm_call example_prompts (port_const ''respond'' [call_Done]) example_dispatch_state)
     = Inr \<lparr> u_messages = Some [(Some ''rrr'', AIMessage '''' [call_Done])],
             u_email_input = None, u_classification_decision = None \<rparr>
   \<and> snd (tool_handler example_tools example_dispatch_state)
     = Inr \<lparr> u_messages =
               Some [(None,
                      ToolMessage ''Available times on Monday: 9:00 AM, 2:00 PM, 4:00 PM''
                        ''call_3''),
                     (None,
                      ToolMessage (''Email sent to alice.smith@company.com with subject ''
                                   @ [CHR 0x27] @ ''Re: API'' @ [CHR 0x27]
                                   @ '' and content: Will check.'') ''call_1'')],
             u_email_input = None, u_classification_decision = None \<rparr>
   \<and> email_input (state (agent 25 example_uuid4 example_prompts
         (port_const ''respond'' [call_Done]) example_tools example_dispatch_state))
     = example_email
   \<and> classification_decision (state (agent 25 example_uuid4 example_prompts
         (port_const ''respond'' [call_Done]) example_tools example_dispatch_state))
     = Some ''respond''"
proof -
  have l: "snd (llm_call example_prompts (port_const ''respond'' [call_Done])
                  example_dispatch_state)
     = Inr \<lparr> u_messages = Some [(Some ''rrr'', AIMessage '''' [call_Done])],
             u_email_input = None, u_classification_decision = None \<rparr>"
    by (simp add: llm_call_def llm_request_def port_const_def example_dispatch_state_def
        example_state_def)
  have e: "email_input example_dispatch_state = example_email"
    "classification_decision example_dispatch_state = Some ''respond''"
    by (simp_all add: example_dispatch_state_def example_state_def)
  from agent_nodes_update_messages_only
    [where p = example_prompts and pt = "port_const ''respond'' [call_Done]"
       and st = example_dispatch_state
       and ?u1.0 = "\<lparr> u_messages = Some [(Some ''rrr'', AIMessage '''' [call_Done])],
                       u_email_input = None, u_classification_decision = None \<rparr>"
       and tbn = example_tools and ?uuid4.0 = example_uuid4 and k = 0 and limit = 25
       and ?u2.0 = "\<lparr> u_messages =
               Some [(None,
                      ToolMessage ''Available times on Monday: 9:00 AM, 2:00 PM, 4:00 PM''
                        ''call_3''),
                     (None,
                      ToolMessage (''Email sent to alice.smith@company.com with subject ''
                                   @ [CHR 0x27] @ ''Re: API'' @ [CHR 0x27]
                                   @ '' and content: Will check.'') ''call_1'')],
             u_email_input = None, u_classification_decision = None \<rparr>"]
    l example_dispatch e
  show ?thesis by simp
qed

section \<open>Rounds of the agent\<close>

lemma rounds_inv_step:
  assumes "rounds_inv k c"
  shows "rounds_inv (Suc k) (step uuid4 p pt tbn c)"
proof (cases "pc c")
  case (At n)
  show ?thesis
  proof (cases n)
    case TriageRouter
    with assms At show ?thesis by (simp add: rounds_inv_def)
  next
    case LlmCall
    with assms At have k: "even k" "act_calls (log c) = k div 2"
      by (simp_all add: rounds_inv_def)
    from At LlmCall have l: "act_calls (log (step uuid4 p pt tbn c)) = Suc (act_calls (log c))"
      by (simp add: step_log act_calls_def)
    with k have a: "act_calls (log (step uuid4 p pt tbn c)) = Suc (Suc k) div 2" by simp
    from k have o: "odd (Suc k)" by simp
    from step_pc_not_triage[of uuid4 p pt tbn c] At
    have nt: "pc (step uuid4 p pt tbn c) \<noteq> At TriageRouter" by simp
    have nl: "pc (step uuid4 p pt tbn c) \<noteq> At LlmCall"
      using At LlmCall
      by (auto simp: step_def split: prod.splits sum.splits option.splits route.splits)
    show ?thesis
    proof (cases "pc (step uuid4 p pt tbn c)")
      case (At m)
      with nt nl have "m = ToolHandler" by (cases m) simp_all
      with At a o show ?thesis by (simp add: rounds_inv_def)
    next
      case Completed
      with a show ?thesis by (simp add: rounds_inv_def)
    next
      case (Failed e)
      with a show ?thesis by (simp add: rounds_inv_def)
    qed
  next
    case ToolHandler
    with assms At have k: "odd k" "act_calls (log c) = Suc k div 2"
      by (simp_all add: rounds_inv_def)
    have "filter is_act (fst (tool_handler tbn (state c))) = []"
      by (auto simp: filter_empty_conv dest: tool_handler_events)
    with At ToolHandler
    have l: "act_calls (log (step uuid4 p pt tbn c)) = act_calls (log c)"
      by (simp add: step_log act_calls_def)
    from k have e: "even (Suc k)" by simp
    from k(1) have d: "Suc k div 2 = Suc (k div 2)" by (auto elim: oddE)
    from k l d have a: "act_calls (log (step uuid4 p pt tbn c)) = Suc k div 2" by simp
    from step_pc_not_triage[of uuid4 p pt tbn c] At
    have nt: "pc (step uuid4 p pt tbn c) \<noteq> At TriageRouter" by simp
    have nh: "pc (step uuid4 p pt tbn c) \<noteq> At ToolHandler"
      using At ToolHandler
      by (auto simp: step_def split: prod.splits sum.splits)
    show ?thesis
    proof (cases "pc (step uuid4 p pt tbn c)")
      case (At m)
      with nt nh have "m = LlmCall" by (cases m) simp_all
      with At a e show ?thesis by (simp add: rounds_inv_def)
    next
      case Completed
      with a show ?thesis by (simp add: rounds_inv_def)
    next
      case (Failed e)
      with a show ?thesis by (simp add: rounds_inv_def)
    qed
  qed
next
  case Completed
  with assms show ?thesis by (simp add: step_stutter rounds_inv_def)
next
  case (Failed e)
  with assms show ?thesis by (simp add: step_stutter rounds_inv_def)
qed

lemma rounds_inv_funpow:
  "rounds_inv 0 c \<Longrightarrow> rounds_inv n ((step uuid4 p pt tbn ^^ n) c)"
  by (induction n) (simp_all add: rounds_inv_step)

lemma rounds_inv_bound:
  assumes "rounds_inv k c"
  shows "act_calls (log c) \<le> Suc k div 2"
    and "running (pc c) \<Longrightarrow> act_calls (log c) = Suc k div 2"
  using assms by (auto simp: rounds_inv_def split: pc.splits node.splits)

text \<open>
  C2. Whatever the Decision Port answers, a run of the agent under a bound of \<open>n\<close> steps
  ends, completed or failed, and has made at most \<open>(n + 1) div 2\<close> requests to the port.
  If the loop is still going after \<open>n\<close> steps, the run fails with \<open>GraphRecursionError\<close>
  in the state reached, having made exactly that many requests; otherwise it ends where
  the steps have led it. The workflow is bounded in the same way.
\<close>

theorem agent_rounds_bounded:
  "\<not> running (pc (agent n uuid4 p pt tbn st))
   \<and> act_calls (log (agent n uuid4 p pt tbn st)) \<le> Suc n div 2
   \<and> (running (pc ((step uuid4 p pt tbn ^^ n)
                     \<lparr> pc = At LlmCall, state = st, log = [], uuids = 0 \<rparr>)) \<longrightarrow>
        agent n uuid4 p pt tbn st
          = ((step uuid4 p pt tbn ^^ n) \<lparr> pc = At LlmCall, state = st, log = [], uuids = 0 \<rparr>)
              \<lparr> pc := Failed GraphRecursionError \<rparr>
      \<and> act_calls (log (agent n uuid4 p pt tbn st)) = Suc n div 2)
   \<and> (\<not> running (pc ((step uuid4 p pt tbn ^^ n)
                       \<lparr> pc = At LlmCall, state = st, log = [], uuids = 0 \<rparr>)) \<longrightarrow>
        agent n uuid4 p pt tbn st
          = (step uuid4 p pt tbn ^^ n) \<lparr> pc = At LlmCall, state = st, log = [], uuids = 0 \<rparr>)
   \<and> \<not> running (pc (overall_workflow n uuid4 p pt tbn st'))
   \<and> act_calls (log (overall_workflow n uuid4 p pt tbn st')) \<le> Suc n div 2"
proof -
  let ?c0 = "\<lparr> pc = At LlmCall, state = st, log = [], uuids = 0 \<rparr>"
  let ?f = "step uuid4 p pt tbn"
  have "rounds_inv 0 ?c0" by (simp add: rounds_inv_def act_calls_def)
  from rounds_inv_funpow[where n = n and ?uuid4.0 = uuid4 and p = p and pt = pt and tbn = tbn,
      OF this]
  have r: "rounds_inv n ((?f ^^ n) ?c0)" .
  note b = rounds_inv_bound[OF r]
  have 1: "\<not> running (pc (agent n uuid4 p pt tbn st))"
    by (simp add: agent_def run_not_running)
  have 2: "act_calls (log (agent n uuid4 p pt tbn st)) \<le> Suc n div 2"
    using b(1) by (simp add: agent_def run_funpow)
  have 3: "running (pc ((?f ^^ n) ?c0)) \<longrightarrow>
        agent n uuid4 p pt tbn st = ((?f ^^ n) ?c0) \<lparr> pc := Failed GraphRecursionError \<rparr>
      \<and> act_calls (log (agent n uuid4 p pt tbn st)) = Suc n div 2"
    using b(2) by (simp add: agent_def run_funpow)
  have 4: "\<not> running (pc ((?f ^^ n) ?c0)) \<longrightarrow> agent n uuid4 p pt tbn st = (?f ^^ n) ?c0"
    by (simp add: agent_def run_funpow)
  let ?t0 = "\<lparr> pc = At TriageRouter, state = st', log = [], uuids = 0 \<rparr>"
  let ?c1 = "?f ?t0"
  have l1: "act_calls (log ?c1) = 0"
    by (simp add: step_log act_calls_def)
  have 5: "\<not> running (pc (overall_workflow n uuid4 p pt tbn st'))"
    by (auto simp: overall_workflow_def run_not_running Let_def split: nat.splits)
  have 6: "act_calls (log (overall_workflow n uuid4 p pt tbn st')) \<le> Suc n div 2"
  proof (cases "running (pc ?c1)")
    case False
    with l1 show ?thesis
      by (auto simp: overall_workflow_def Let_def act_calls_def split: nat.splits)
  next
    case True
    have nt: "pc ?c1 \<noteq> At TriageRouter"
      using step_pc_not_triage[of uuid4 p pt tbn ?t0] by simp
    have nh: "pc ?c1 \<noteq> At ToolHandler"
      by (auto simp: step_def split: prod.splits sum.splits goto.splits)
    from True nt nh have "pc ?c1 = At LlmCall"
      by (cases "pc ?c1") (auto intro: node.exhaust)
    with l1 have "rounds_inv 0 ?c1" by (simp add: rounds_inv_def)
    from rounds_inv_bound(1)[OF rounds_inv_funpow[where n = n and ?uuid4.0 = uuid4 and p = p
          and pt = pt and tbn = tbn, OF this]]
    have "act_calls (log ((?f ^^ n) ?c1)) \<le> Suc n div 2" .
    with l1 show ?thesis
      by (auto simp: overall_workflow_def Let_def run_funpow act_calls_def
          simp del: funpow.simps split: nat.splits)
  qed
  from 1 2 3 4 5 6 show ?thesis by blast
qed


lemma example_loop_three_steps:
  "pc ((step example_uuid4 example_prompts (port_const ''respond'' [call_check]) example_tools
          ^^ 3) \<lparr> pc = At LlmCall, state = example_state, log = [], uuids = 0 \<rparr>)
     = At ToolHandler"
  by (simp add: numeral_3_eq_3 step_def llm_call_def llm_request_def port_const_def
      apply_update_def add_messages_def should_continue_def last_tool_calls_def
      tool_handler_def example_state_def call_check_def example_tools_def tools_by_name_def
      check_calendar_availability_def example_validation_def example_uuid4_def Let_def)

lemma example_done_one_step:
  "(step example_uuid4 example_prompts (port_const ''respond'' [call_Done]) example_tools ^^ 3)
     \<lparr> pc = At LlmCall, state = example_state, log = [], uuids = 0 \<rparr>
   = \<lparr> pc = Completed,
       state = example_state
         \<lparr> messages := [(''m'', HumanMessage ''Respond to the email''),
                         (''rr'', AIMessage '''' [call_Done])] \<rparr>,
       log = [Visit LlmCall, Act (llm_request example_prompts example_state)],
       uuids = 0 \<rparr>"
  by (simp add: numeral_3_eq_3 step_def llm_call_def llm_request_def port_const_def
      apply_update_def add_messages_def should_continue_def last_tool_calls_def
      example_state_def call_Done_def Let_def)

theorem agent_rounds_bounded_witness:
  "running (pc ((step example_uuid4 example_prompts (port_const ''respond'' [call_check])
                   example_tools ^^ 3)
                  \<lparr> pc = At LlmCall, state = example_state, log = [], uuids = 0 \<rparr>))
   \<and> pc (agent 3 example_uuid4 example_prompts (port_const ''respond'' [call_check])
            example_tools example_state) = Failed GraphRecursionError
   \<and> act_calls (log (agent 3 example_uuid4 example_prompts (port_const ''respond'' [call_check])
                        example_tools example_state)) = 2
   \<and> \<not> running (pc ((step example_uuid4 example_prompts (port_const ''respond'' [call_Done])
                       example_tools ^^ 3)
                      \<lparr> pc = At LlmCall, state = example_state, log = [], uuids = 0 \<rparr>))
   \<and> agent 3 example_uuid4 example_prompts (port_const ''respond'' [call_Done])
        example_tools example_state
     = \<lparr> pc = Completed,
         state = example_state
           \<lparr> messages := [(''m'', HumanMessage ''Respond to the email''),
                           (''rr'', AIMessage '''' [call_Done])] \<rparr>,
         log = [Visit LlmCall, Act (llm_request example_prompts example_state)],
         uuids = 0 \<rparr>"
proof -
  note a = agent_rounds_bounded
    [where n = 3 and ?uuid4.0 = example_uuid4 and p = example_prompts
       and pt = "port_const ''respond'' [call_check]" and tbn = example_tools
       and st = example_state and st' = example_state]
  note b = agent_rounds_bounded
    [where n = 3 and ?uuid4.0 = example_uuid4 and p = example_prompts
       and pt = "port_const ''respond'' [call_Done]" and tbn = example_tools
       and st = example_state and st' = example_state]
  have r: "running (pc ((step example_uuid4 example_prompts (port_const ''respond'' [call_check])
                   example_tools ^^ 3)
                  \<lparr> pc = At LlmCall, state = example_state, log = [], uuids = 0 \<rparr>))"
    by (simp add: example_loop_three_steps del: funpow.simps)
  from a r have x: "agent 3 example_uuid4 example_prompts (port_const ''respond'' [call_check])
            example_tools example_state
        = ((step example_uuid4 example_prompts (port_const ''respond'' [call_check])
              example_tools ^^ 3)
             \<lparr> pc = At LlmCall, state = example_state, log = [], uuids = 0 \<rparr>)
            \<lparr> pc := Failed GraphRecursionError \<rparr>"
    and y: "act_calls (log (agent 3 example_uuid4 example_prompts
            (port_const ''respond'' [call_check]) example_tools example_state)) = Suc 3 div 2"
    by blast+
  from x have 1: "pc (agent 3 example_uuid4 example_prompts (port_const ''respond'' [call_check])
            example_tools example_state) = Failed GraphRecursionError"
    by (simp del: funpow.simps)
  from y have 3: "act_calls (log (agent 3 example_uuid4 example_prompts
            (port_const ''respond'' [call_check]) example_tools example_state)) = 2"
    by simp
  have nr: "\<not> running (pc ((step example_uuid4 example_prompts
                       (port_const ''respond'' [call_Done]) example_tools ^^ 3)
                      \<lparr> pc = At LlmCall, state = example_state, log = [], uuids = 0 \<rparr>))"
    by (simp add: example_done_one_step del: funpow.simps)
  from b nr have "agent 3 example_uuid4 example_prompts (port_const ''respond'' [call_Done])
        example_tools example_state
      = (step example_uuid4 example_prompts (port_const ''respond'' [call_Done])
           example_tools ^^ 3)
          \<lparr> pc = At LlmCall, state = example_state, log = [], uuids = 0 \<rparr>"
    by blast
  then have 2: "agent 3 example_uuid4 example_prompts (port_const ''respond'' [call_Done])
        example_tools example_state
     = \<lparr> pc = Completed,
         state = example_state
           \<lparr> messages := [(''m'', HumanMessage ''Respond to the email''),
                           (''rr'', AIMessage [] [call_Done])] \<rparr>,
         log = [Visit LlmCall, Act (llm_request example_prompts example_state)],
         uuids = 0 \<rparr>"
    by (simp only: example_done_one_step)
  from r 1 3 nr 2 show ?thesis by blast
qed
section \<open>Dispatching\<close>










section \<open>Tool calls and their results\<close>

lemma call_ids_append [simp]: "call_ids (xs @ ys) = call_ids xs @ call_ids ys"
  by (simp add: call_ids_def)

lemma result_ids_append [simp]: "result_ids (xs @ ys) = result_ids xs @ result_ids ys"
  by (simp add: result_ids_def)











end
